theory Spec2Isabelle
  imports Complex_Main "HOL-Library.Sublist"
begin

section \<open>JavaScript values used by the component\<close>

text \<open>
  The component \<open>App\<close> (src/App.tsx) is modelled; src/unnamed/part_000 is an earlier
  revision of the same component, without the heat layer and the cluster group, whose search
  filter, \<open>window.updateRadius\<close>, effect on the radii and synchronisation effect are the
  same code.

  \<open>App\<close> keeps its per-location radii in a plain JavaScript object. Property keys of an object are strings: a number used as a key is converted with
  \<open>ToString\<close>, \<open>Object.keys\<close> gives the strings back, and the component turns them into
  numbers again with \<open>parseInt(id, 10)\<close>. Both conversions are part of the model.

  Location ids and radii are integers (\<open>LocationData.id\<close>, the values of the range inputs).
  They are modelled as \<open>int\<close>; JavaScript prints an integer of magnitude below \<open>10^21\<close> in
  plain decimal, which is what \<open>ToString\<close> does here for every integer. \<open>NaN\<close> is the
  only other number the component can produce (from \<open>parseInt\<close>).
\<close>

datatype number = Num int | NaN

definition digit_char :: "nat \<Rightarrow> char" where
  "digit_char d = char_of (48 + d)"

function digits :: "nat \<Rightarrow> string" where
  "digits n = (if n < 10 then [digit_char n] else digits (n div 10) @ [digit_char (n mod 10)])"
  by pat_completeness auto
termination
  by (relation "measure (\<lambda>n. n)") auto

declare digits.simps [simp del]

fun ToString :: "number \<Rightarrow> string" where
  "ToString NaN = ''NaN''"
| "ToString (Num i) = (if i < 0 then CHR ''-'' # digits (nat (- i)) else digits (nat i))"

definition is_digit :: "char \<Rightarrow> bool" where
  "is_digit c = (48 \<le> (of_char c :: nat) \<and> (of_char c :: nat) \<le> 57)"

definition digit_val :: "char \<Rightarrow> int" where
  "digit_val c = int (of_char c) - 48"

text \<open>The ASCII members of \<open>StrWhiteSpaceChar\<close>: TAB, LF, VT, FF, CR and space.\<close>

definition is_space :: "char \<Rightarrow> bool" where
  "is_space c = ((of_char c :: nat) \<in> {9, 10, 11, 12, 13, 32})"

definition digits_val :: "string \<Rightarrow> int" where
  "digits_val ds = foldl (\<lambda>a c. 10 * a + digit_val c) 0 ds"

definition parse_digits :: "int \<Rightarrow> string \<Rightarrow> number" where
  "parse_digits sign t =
     (let ds = takeWhile is_digit t
      in if ds = [] then NaN else Num (sign * digits_val ds))"

text \<open>
  \<open>parseInt(s, 10)\<close>: leading white space is skipped, one sign is read, then the longest
  prefix of decimal digits; with no digit the result is \<open>NaN\<close>. The value is the integer
  the digits denote (exact in JavaScript for the integers a number holds exactly).
\<close>

definition parseInt :: "string \<Rightarrow> number" where
  "parseInt s =
     (case dropWhile is_space s of
        [] \<Rightarrow> NaN
      | c # t \<Rightarrow>
          if c = CHR ''-'' then parse_digits (- 1) t
          else if c = CHR ''+'' then parse_digits 1 t
          else parse_digits 1 (c # t))"





text \<open>
  A JavaScript object as an association list with distinct keys. \<open>obj_set\<close> is the
  assignment \<open>o[k] = v\<close>: an existing property keeps its place, a new one is appended.
  (JavaScript enumerates integer-like keys in ascending order; no result below depends on
  the order of enumeration.)
\<close>

type_synonym 'v obj = "(string \<times> 'v) list"

definition obj_get :: "'v obj \<Rightarrow> string \<Rightarrow> 'v option" where
  "obj_get ob k = map_of ob k"

fun obj_set :: "'v obj \<Rightarrow> string \<Rightarrow> 'v \<Rightarrow> 'v obj" where
  "obj_set [] k v = [(k, v)]"
| "obj_set ((k', v') # ps) k v = (if k' = k then (k, v) # ps else (k', v') # obj_set ps k v)"

definition obj_keys :: "'v obj \<Rightarrow> string list" where
  "obj_keys ob = map fst ob"

definition obj_values :: "'v obj \<Rightarrow> 'v list" where
  "obj_values ob = map snd ob"


section \<open>The location catalog and the search filter\<close>

text \<open>
  \<open>LocationData\<close> is declared in \<open>./types\<close> and the catalog \<open>LOCATIONS\<close> in
  \<open>./constants\<close>; neither file is part of the sources at hand. The record has the fields
  the component reads (\<open>id\<close>, \<open>city\<close>, \<open>region\<close>, \<open>lat\<close>, \<open>lng\<close>, \<open>courierNeed\<close>), and the
  catalog is a parameter \<open>LOCATIONS\<close> of everything that reads it.
\<close>

record LocationData =
  loc_id :: int
  city :: string
  region :: string
  lat :: real
  lng :: real
  courierNeed :: int




section \<open>The state of the component\<close>

text \<open>
  Leaflet objects are named by what they are: the tile layer, the heat layer, the marker
  cluster group, and one marker and one circle per location, named by the location's id
  (ids are unique in the catalog).
\<close>

datatype layer = TileLayer | HeatLayer | MarkerClusterGroup | Marker int | Circle int

datatype control = Legend | FullscreenControl

text \<open>
  \<open>createMarkerIcon(loc, labelsVisible)\<close>: the red dot, with the label bubble showing
  \<open>loc.city\<close> exactly when \<open>labelsVisible\<close>.
\<close>

record icon =
  icon_city :: string
  icon_label :: bool

definition createMarkerIcon :: "LocationData \<Rightarrow> bool \<Rightarrow> icon" where
  "createMarkerIcon loc labelsVisible = \<lparr>icon_city = city loc, icon_label = labelsVisible\<rparr>"

text \<open>The calls the component issues on Leaflet objects, in the order it issues them.\<close>

datatype call =
    AddLayer layer
  | RemoveLayer layer
  | GroupAddLayer int
  | SetIcon int icon
  | SetRadius int int
  | AddControl control
  | ZoomToShowLayer int
  | SetView int nat
  | OpenPopup int

record layerRef =
  marker :: int
  circle :: int

text \<open>
  One record holds the React state of \<open>App\<close>, its refs, the part of the Leaflet map and of
  the document that the component reads back (\<open>map.hasLayer\<close>, \<open>document.getElementById\<close>),
  the log of Leaflet calls, and a counter of the \<open>setRadii\<close> calls that were committed.
  \<open>document\<close> maps the id of an element to the value it displays; the elements
  \<open>radius-<id>\<close> (the slider) and \<open>radius-val-<id>\<close> (the label) exist while the popup of
  that location is open.
\<close>

record app =
  searchTerm :: string
  radii :: "int obj"
  isSynced :: bool
  uniformRadius :: int
  showLabels :: bool
  showHeatmap :: bool
  isClusteringEnabled :: bool
  mapRef :: bool
  layerRefs :: "layerRef obj"
  markerClusterGroupRef :: bool
  heatmapLayerRef :: bool
  layers :: "layer set"
  clusterMembers :: "int set"
  circleRadius :: "int \<rightharpoonup> int"
  markerIcon :: "int \<rightharpoonup> icon"
  document :: "string \<rightharpoonup> string"
  calls :: "call list"
  radiiUpdates :: nat

definition initial :: app where
  "initial =
     \<lparr>searchTerm = [], radii = [], isSynced = False, uniformRadius = 10, showLabels = True,
      showHeatmap = False, isClusteringEnabled = True, mapRef = False, layerRefs = [],
      markerClusterGroupRef = False, heatmapLayerRef = False, layers = {},
      clusterMembers = {}, circleRadius = Map.empty, markerIcon = Map.empty,
      document = Map.empty, calls = [], radiiUpdates = 0\<rparr>"


section \<open>Leaflet and the document\<close>

definition hasLayer :: "layer \<Rightarrow> app \<Rightarrow> bool" where
  "hasLayer x s = (x \<in> layers s)"

definition attach :: "layer \<Rightarrow> app \<Rightarrow> app" where
  "attach x s = s\<lparr>layers := insert x (layers s), calls := calls s @ [AddLayer x]\<rparr>"

definition detach :: "layer \<Rightarrow> app \<Rightarrow> app" where
  "detach x s = s\<lparr>layers := layers s - {x}, calls := calls s @ [RemoveLayer x]\<rparr>"

text \<open>
  The handlers the component registers on every marker
  (\<open>marker.on('add', ...)\<close>, \<open>marker.on('remove', ...)\<close>): the circle follows its marker.
\<close>

definition on_add :: "int \<Rightarrow> app \<Rightarrow> app" where
  "on_add i s = (if \<not> hasLayer (Circle i) s then attach (Circle i) s else s)"

definition on_remove :: "int \<Rightarrow> app \<Rightarrow> app" where
  "on_remove i s = (if hasLayer (Circle i) s then detach (Circle i) s else s)"

text \<open>
  \<open>map.addLayer\<close> and \<open>map.removeLayer\<close>: a layer that is already in the wanted state is
  left alone; a marker that is attached or detached fires its handler. What the cluster
  group draws for its members while it is attached is the library's business and is not
  modelled: \<open>layers\<close> holds what the component attached itself.
\<close>

definition map_addLayer :: "layer \<Rightarrow> app \<Rightarrow> app" where
  "map_addLayer x s =
     (if hasLayer x s then s\<lparr>calls := calls s @ [AddLayer x]\<rparr>
      else (case x of Marker i \<Rightarrow> on_add i (attach x s) | _ \<Rightarrow> attach x s))"

definition map_removeLayer :: "layer \<Rightarrow> app \<Rightarrow> app" where
  "map_removeLayer x s =
     (if \<not> hasLayer x s then s\<lparr>calls := calls s @ [RemoveLayer x]\<rparr>
      else (case x of Marker i \<Rightarrow> on_remove i (detach x s) | _ \<Rightarrow> detach x s))"

definition circle_setRadius :: "int \<Rightarrow> int \<Rightarrow> app \<Rightarrow> app" where
  "circle_setRadius i m s =
     s\<lparr>circleRadius := (circleRadius s)(i \<mapsto> m), calls := calls s @ [SetRadius i m]\<rparr>"

definition marker_setIcon :: "int \<Rightarrow> icon \<Rightarrow> app \<Rightarrow> app" where
  "marker_setIcon i ic s =
     s\<lparr>markerIcon := (markerIcon s)(i \<mapsto> ic), calls := calls s @ [SetIcon i ic]\<rparr>"

definition slider_id :: "number \<Rightarrow> string" where
  "slider_id n = ''radius-'' @ ToString n"

definition label_id :: "number \<Rightarrow> string" where
  "label_id n = ''radius-val-'' @ ToString n"

text \<open>
  Opening the popup bound to a marker renders \<open>popupContent\<close>: the label reads \<open>10\<close> and
  the slider stands at \<open>10\<close>, as the string says. Closing it removes both elements.
  (Leaflet closes an open popup when another one opens; here any number of popups may be
  open, which covers more states than the map can reach.)
\<close>

definition marker_openPopup :: "int \<Rightarrow> app \<Rightarrow> app" where
  "marker_openPopup i s =
     s\<lparr>document := (document s)(slider_id (Num i) \<mapsto> ''10'', label_id (Num i) \<mapsto> ''10''),
       calls := calls s @ [OpenPopup i]\<rparr>"

definition closePopup :: "int \<Rightarrow> app \<Rightarrow> app" where
  "closePopup i s =
     s\<lparr>document := (document s)(slider_id (Num i) := None, label_id (Num i) := None)\<rparr>"



section \<open>The effects\<close>

text \<open>
  The slider of a popup is \<open><input type="range" min="1" max="50" ...>\<close>: a value assigned
  to it is brought into that range by the browser.
\<close>

definition range_value :: "int \<Rightarrow> int" where
  "range_value v = (if v < 1 then 1 else if 50 < v then 50 else v)"

text \<open>
  The effect on \<open>[radii]\<close>: every entry of \<open>radii\<close> whose id has layers gets its circle
  redrawn, and the slider and the label of its popup rewritten when they are in the
  document.
\<close>

definition radii_entry :: "string \<times> int \<Rightarrow> app \<Rightarrow> app" where
  "radii_entry e s =
     (let numericId = parseInt (fst e); radius = snd e
      in case obj_get (layerRefs s) (ToString numericId) of
           None \<Rightarrow> s
         | Some r \<Rightarrow>
             (let radiusInMeters = radius * 1000;
                  s1 = circle_setRadius (circle r) radiusInMeters s
              in case document s1 (slider_id numericId) of
                   None \<Rightarrow> s1
                 | Some _ \<Rightarrow>
                     (let s2 = s1\<lparr>document :=
                                 (document s1)(slider_id numericId \<mapsto>
                                    ToString (Num (range_value radius)))\<rparr>
                      in case document s2 (label_id numericId) of
                           None \<Rightarrow> s2
                         | Some _ \<Rightarrow>
                             s2\<lparr>document :=
                                 (document s2)(label_id numericId \<mapsto> ToString (Num radius))\<rparr>)))"

fun radii_loop :: "(string \<times> int) list \<Rightarrow> app \<Rightarrow> app" where
  "radii_loop [] s = s"
| "radii_loop (e # es) s = radii_loop es (radii_entry e s)"

definition radii_effect :: "app \<Rightarrow> app" where
  "radii_effect s = radii_loop (radii s) s"

text \<open>
  \<open>setRadii\<close> with a new object always commits (a fresh object is never identical to the
  old one), and the commit runs the effect on \<open>[radii]\<close>; no other effect depends on
  \<open>radii\<close>.
\<close>

definition setRadii :: "int obj \<Rightarrow> app \<Rightarrow> app" where
  "setRadii newRadii s =
     radii_effect (s\<lparr>radii := newRadii, radiiUpdates := Suc (radiiUpdates s)\<rparr>)"

text \<open>\<open>window.updateRadius\<close>: \<open>setRadii(prev => ({ ...prev, [id]: Number(radius) }))\<close>.\<close>

definition updateRadius :: "int \<Rightarrow> int \<Rightarrow> app \<Rightarrow> app" where
  "updateRadius i radius s = setRadii (obj_set (radii s) (ToString (Num i)) radius) s"

text \<open>The effect on \<open>[showHeatmap]\<close>.\<close>

definition heatmap_effect :: "app \<Rightarrow> app" where
  "heatmap_effect s =
     (if \<not> mapRef s \<or> \<not> heatmapLayerRef s then s
      else if showHeatmap s then
        (if \<not> hasLayer HeatLayer s then map_addLayer HeatLayer s else s)
      else
        (if hasLayer HeatLayer s then map_removeLayer HeatLayer s else s))"

text \<open>
  The effect on \<open>[isSynced, uniformRadius]\<close>: the reduce over \<open>Object.keys(radii)\<close> builds
  one new object, and one \<open>setRadii\<close> installs it.
\<close>

definition sync_newRadii :: "int obj \<Rightarrow> int \<Rightarrow> int obj" where
  "sync_newRadii rs u = foldl (\<lambda>acc k. obj_set acc (ToString (parseInt k)) u) [] (obj_keys rs)"

definition sync_effect :: "app \<Rightarrow> app" where
  "sync_effect s =
     (if isSynced s then setRadii (sync_newRadii (radii s) (uniformRadius s)) s else s)"

text \<open>The effect on \<open>[showLabels]\<close>.\<close>

definition label_step :: "LocationData \<Rightarrow> app \<Rightarrow> app" where
  "label_step loc s =
     (case obj_get (layerRefs s) (ToString (Num (loc_id loc))) of
        None \<Rightarrow> s
      | Some r \<Rightarrow> marker_setIcon (marker r) (createMarkerIcon loc (showLabels s)) s)"

fun labels_loop :: "LocationData list \<Rightarrow> app \<Rightarrow> app" where
  "labels_loop [] s = s"
| "labels_loop (loc # locs) s = labels_loop locs (label_step loc s)"

definition labels_effect :: "LocationData list \<Rightarrow> app \<Rightarrow> app" where
  "labels_effect LOCATIONS s = labels_loop LOCATIONS s"

text \<open>The effect on \<open>[isClusteringEnabled]\<close>.\<close>

fun remove_markers :: "layerRef list \<Rightarrow> app \<Rightarrow> app" where
  "remove_markers [] s = s"
| "remove_markers (r # rs) s =
     remove_markers rs
       (if hasLayer (Marker (marker r)) s then map_removeLayer (Marker (marker r)) s else s)"

fun add_markers :: "layerRef list \<Rightarrow> app \<Rightarrow> app" where
  "add_markers [] s = s"
| "add_markers (r # rs) s =
     add_markers rs
       (if \<not> hasLayer (Marker (marker r)) s then map_addLayer (Marker (marker r)) s else s)"

definition clustering_effect :: "app \<Rightarrow> app" where
  "clustering_effect s =
     (if \<not> mapRef s \<or> \<not> markerClusterGroupRef s then s
      else if isClusteringEnabled s then
        (let s1 = remove_markers (obj_values (layerRefs s)) s
         in if \<not> hasLayer MarkerClusterGroup s1 then map_addLayer MarkerClusterGroup s1 else s1)
      else
        (let s1 = (if hasLayer MarkerClusterGroup s then map_removeLayer MarkerClusterGroup s
                   else s)
         in add_markers (obj_values (layerRefs s1)) s1))"

text \<open>
  The effect that initialises the map. It returns at once when the map exists (the
  container \<open>div\<close> is rendered before any effect runs). The loop over \<open>LOCATIONS\<close> fills
  \<open>initialRadii\<close> and creates the layers of each location; the effect hands \<open>initialRadii\<close>
  to \<open>setRadii\<close>, which React commits once the effects of the first render have run. The
  cleanup of the effect runs when the component unmounts, which ends a session.
\<close>

definition init_location :: "LocationData \<Rightarrow> int obj \<times> app \<Rightarrow> int obj \<times> app" where
  "init_location loc p =
     (let initialRadii = obj_set (fst p) (ToString (Num (loc_id loc))) 10;
          s = snd p;
          customIcon = createMarkerIcon loc True;
          s1 = s\<lparr>markerIcon := (markerIcon s)(loc_id loc \<mapsto> customIcon),
                 circleRadius := (circleRadius s)(loc_id loc \<mapsto> 10 * 1000)\<rparr>;
          s2 = s1\<lparr>layerRefs := obj_set (layerRefs s1) (ToString (Num (loc_id loc)))
                                 \<lparr>marker = loc_id loc, circle = loc_id loc\<rparr>\<rparr>;
          s3 = s2\<lparr>clusterMembers := insert (loc_id loc) (clusterMembers s2),
                  calls := calls s2 @ [GroupAddLayer (loc_id loc)]\<rparr>
      in (initialRadii, s3))"

fun init_loop :: "LocationData list \<Rightarrow> int obj \<times> app \<Rightarrow> int obj \<times> app" where
  "init_loop [] p = p"
| "init_loop (loc # locs) p = init_loop locs (init_location loc p)"

definition init_effect :: "LocationData list \<Rightarrow> app \<Rightarrow> int obj option \<times> app" where
  "init_effect LOCATIONS s =
     (if mapRef s then (None, s)
      else
        (let s1 = s\<lparr>mapRef := True\<rparr>;
             s2 = attach TileLayer s1;
             s3 = s2\<lparr>heatmapLayerRef := True\<rparr>;
             s4 = s3\<lparr>markerClusterGroupRef := True\<rparr>;
             p = init_loop LOCATIONS ([], s4);
             s5 = map_addLayer MarkerClusterGroup (snd p);
             s6 = s5\<lparr>calls := calls s5 @ [AddControl Legend, AddControl FullscreenControl]\<rparr>
         in (Some (fst p), s6)))"

text \<open>
  Mounting the component: the first render commits, its effects run in the order they
  are written, and the \<open>setRadii\<close> queued by the initialisation is committed after them.
\<close>

definition mount :: "LocationData list \<Rightarrow> app" where
  "mount LOCATIONS =
     (let p = init_effect LOCATIONS initial;
          s1 = radii_effect (snd p);
          s2 = heatmap_effect s1;
          s3 = sync_effect s2;
          s4 = labels_effect LOCATIONS s3;
          s5 = clustering_effect s4
      in case fst p of None \<Rightarrow> s5 | Some initialRadii \<Rightarrow> setRadii initialRadii s5)"


section \<open>State setters and user events\<close>

text \<open>
  A setter called with the value the state already has commits nothing, and an effect
  runs only after a commit that changed one of its dependencies.
\<close>

definition setSearchTerm :: "string \<Rightarrow> app \<Rightarrow> app" where
  "setSearchTerm q s = (if q = searchTerm s then s else s\<lparr>searchTerm := q\<rparr>)"

definition setIsSynced :: "bool \<Rightarrow> app \<Rightarrow> app" where
  "setIsSynced b s = (if b = isSynced s then s else sync_effect (s\<lparr>isSynced := b\<rparr>))"

definition setUniformRadius :: "int \<Rightarrow> app \<Rightarrow> app" where
  "setUniformRadius v s =
     (if v = uniformRadius s then s else sync_effect (s\<lparr>uniformRadius := v\<rparr>))"

definition setShowLabels :: "LocationData list \<Rightarrow> bool \<Rightarrow> app \<Rightarrow> app" where
  "setShowLabels LOCATIONS b s =
     (if b = showLabels s then s else labels_effect LOCATIONS (s\<lparr>showLabels := b\<rparr>))"

definition setShowHeatmap :: "bool \<Rightarrow> app \<Rightarrow> app" where
  "setShowHeatmap b s = (if b = showHeatmap s then s else heatmap_effect (s\<lparr>showHeatmap := b\<rparr>))"

definition setIsClusteringEnabled :: "bool \<Rightarrow> app \<Rightarrow> app" where
  "setIsClusteringEnabled b s =
     (if b = isClusteringEnabled s then s
      else clustering_effect (s\<lparr>isClusteringEnabled := b\<rparr>))"

definition handleLocationSelect :: "LocationData \<Rightarrow> app \<Rightarrow> app" where
  "handleLocationSelect loc s =
     (case obj_get (layerRefs s) (ToString (Num (loc_id loc))) of
        None \<Rightarrow> s
      | Some r \<Rightarrow>
          if \<not> mapRef s then s
          else if isClusteringEnabled s \<and> markerClusterGroupRef s then
            marker_openPopup (marker r) (s\<lparr>calls := calls s @ [ZoomToShowLayer (marker r)]\<rparr>)
          else
            marker_openPopup (marker r) (s\<lparr>calls := calls s @ [SetView (marker r) 13]\<rparr>))"

text \<open>
  The inline handler of a popup's slider:
  \<open>document.getElementById('radius-val-<id>').innerText = this.value;
   window.updateRadius(<id>, this.value)\<close>.
\<close>

definition popup_oninput :: "int \<Rightarrow> int \<Rightarrow> app \<Rightarrow> app" where
  "popup_oninput i v s =
     updateRadius i v
       (s\<lparr>document := (document s)(slider_id (Num i) \<mapsto> ToString (Num v),
                                     label_id (Num i) \<mapsto> ToString (Num v))\<rparr>)"





definition catalog_ids :: "LocationData list \<Rightarrow> int set" where
  "catalog_ids LOCATIONS = loc_id ` set LOCATIONS"


section \<open>A small catalog\<close>

definition London :: LocationData where
  "London = \<lparr>loc_id = 1, city = ''London'', region = ''Greater London'',
             lat = 51.5074, lng = - 0.1278, courierNeed = 500\<rparr>"

definition Leeds :: LocationData where
  "Leeds = \<lparr>loc_id = 2, city = ''Leeds'', region = ''Yorkshire'',
            lat = 53.8008, lng = - 1.5491, courierNeed = 120\<rparr>"

definition Londonderry :: LocationData where
  "Londonderry = \<lparr>loc_id = 3, city = ''Londonderry'', region = ''Northern Ireland'',
                  lat = 54.9966, lng = - 7.3086, courierNeed = 40\<rparr>"

definition demo :: "LocationData list" where
  "demo = [London, Leeds, Londonderry]"


section \<open>Predicates used in the proofs\<close>

text \<open>
  \<open>number_keyed\<close>: the keys of an object are distinct and each is the key of a number,
  as the type \<open>{ [key: number]: number }\<close> of \<open>radii\<close> says. The \<open>fp_\<close> relations name
  the fields an effect may change. \<open>inv\<close> collects what holds in every state of a session.
  \<open>layer_op\<close> names the two guarded calls of the clustering effect,
  \<open>if (!map.hasLayer(x)) map.addLayer(x)\<close> and \<open>if (map.hasLayer(x)) map.removeLayer(x)\<close>,
  so that the states between its calls can be spoken of.
\<close>

definition number_keyed :: "'v obj \<Rightarrow> bool" where
  "number_keyed ob = (distinct (obj_keys ob) \<and> (\<forall>k \<in> set (obj_keys ob). k \<in> range ToString))"

definition fp_map :: "app \<Rightarrow> app \<Rightarrow> bool" where
  "fp_map s s' = (\<exists>L C. s' = s\<lparr>layers := L, calls := C\<rparr>)"

definition fp_view :: "app \<Rightarrow> app \<Rightarrow> bool" where
  "fp_view s s' = (\<exists>R D C. s' = s\<lparr>circleRadius := R, document := D, calls := C\<rparr>)"

definition fp_icon :: "app \<Rightarrow> app \<Rightarrow> bool" where
  "fp_icon s s' = (\<exists>I C. s' = s\<lparr>markerIcon := I, calls := C\<rparr>)"

definition layerRefs_for :: "int set \<Rightarrow> layerRef obj \<Rightarrow> bool" where
  "layerRefs_for A L =
     (distinct (obj_keys L) \<and>
      set L = (\<lambda>i. (ToString (Num i), \<lparr>marker = i, circle = i\<rparr>)) ` A)"

definition plain :: "layer \<Rightarrow> bool" where
  "plain y = (case y of Circle i \<Rightarrow> False | _ \<Rightarrow> True)"

definition id_keys :: "int set \<Rightarrow> string set" where
  "id_keys A = (\<lambda>i. ToString (Num i)) ` A"

definition fp_init :: "app \<Rightarrow> app \<Rightarrow> bool" where
  "fp_init s s' =
     (\<exists>I R L M C. s' = s\<lparr>layerRefs := L, clusterMembers := M, circleRadius := R,
                           markerIcon := I, calls := C\<rparr>)"

definition refs_ok :: "LocationData list \<Rightarrow> app \<Rightarrow> bool" where
  "refs_ok LOCATIONS s =
     (mapRef s \<and> heatmapLayerRef s \<and> markerClusterGroupRef s \<and>
      layerRefs_for (catalog_ids LOCATIONS) (layerRefs s))"



definition clustered_mode :: "LocationData list \<Rightarrow> app \<Rightarrow> bool" where
  "clustered_mode LOCATIONS s =
     (MarkerClusterGroup \<in> layers s \<and>
      (\<forall>i \<in> catalog_ids LOCATIONS. i \<in> clusterMembers s \<and> Marker i \<notin> layers s))"

definition individual_mode :: "LocationData list \<Rightarrow> app \<Rightarrow> bool" where
  "individual_mode LOCATIONS s =
     (MarkerClusterGroup \<notin> layers s \<and> (\<forall>i \<in> catalog_ids LOCATIONS. Marker i \<in> layers s))"

definition mode_ok :: "LocationData list \<Rightarrow> app \<Rightarrow> bool" where
  "mode_ok LOCATIONS s =
     (catalog_ids LOCATIONS \<subseteq> clusterMembers s \<and>
      (if isClusteringEnabled s then clustered_mode LOCATIONS s
       else individual_mode LOCATIONS s))"

definition doc_ok :: "LocationData list \<Rightarrow> app \<Rightarrow> bool" where
  "doc_ok LOCATIONS s =
     (\<forall>i. document s (slider_id (Num i)) \<noteq> None \<longrightarrow> i \<in> catalog_ids LOCATIONS)"




definition flags :: "app \<Rightarrow> bool \<times> bool \<times> bool" where
  "flags s = (showLabels s, showHeatmap s, isClusteringEnabled s)"

datatype layer_op = EnsureOn layer | EnsureOff layer

fun apply_op :: "layer_op \<Rightarrow> app \<Rightarrow> app" where
  "apply_op (EnsureOn x) s = (if \<not> hasLayer x s then map_addLayer x s else s)"
| "apply_op (EnsureOff x) s = (if hasLayer x s then map_removeLayer x s else s)"

definition apply_ops :: "layer_op list \<Rightarrow> app \<Rightarrow> app" where
  "apply_ops ops s = foldl (\<lambda>t op. apply_op op t) s ops"






section \<open>Lemmas\<close>

subsection \<open>Numbers and strings\<close>

lemma digit_char_props:
  assumes "d < 10"
  shows "is_digit (digit_char d)" "digit_val (digit_char d) = int d"
  using assms
  by (simp_all add: is_digit_def digit_val_def digit_char_def)

lemma digits_val_snoc: "digits_val (ds @ [c]) = 10 * digits_val ds + digit_val c"
  by (simp add: digits_val_def)

lemma digits_all_digit: "\<forall>c \<in> set (digits n). is_digit c"
  by (induction n rule: digits.induct) (subst digits.simps, auto simp: digit_char_props)

lemma digits_nonempty: "digits n \<noteq> []"
  by (subst digits.simps) simp

lemma digits_val_digits: "digits_val (digits n) = int n"
proof (induction n rule: digits.induct)
  case (1 n)
  show ?case
  proof (cases "n < 10")
    case True
    then show ?thesis
      by (subst digits.simps) (simp add: digits_val_def digit_char_props)
  next
    case False
    with 1 have "digits_val (digits (n div 10)) = int (n div 10)" by simp
    with False show ?thesis
      by (subst digits.simps) (simp add: digits_val_snoc digit_char_props zdiv_int zmod_int)
  qed
qed

lemma hd_digits: "\<exists>d ds. digits n = d # ds \<and> is_digit d"
  using digits_nonempty [of n] digits_all_digit [of n] by (cases "digits n") auto

lemma is_digit_not_special:
  "is_digit c \<Longrightarrow> \<not> is_space c \<and> c \<noteq> CHR ''-'' \<and> c \<noteq> CHR ''+'' \<and> c \<noteq> CHR ''v''"
  by (auto simp: is_digit_def is_space_def)

lemma parse_digits_digits: "parse_digits sg (digits n) = Num (sg * int n)"
proof -
  have tw: "takeWhile is_digit (digits n) = digits n"
    using digits_all_digit by (simp add: takeWhile_eq_all_conv)
  show ?thesis
    unfolding parse_digits_def tw by (simp add: digits_nonempty digits_val_digits)
qed

lemma parseInt_digits: "parseInt (digits n) = Num (int n)"
proof -
  obtain d ds where e: "digits n = d # ds" "is_digit d" using hd_digits by blast
  then have "parseInt (digits n) = parse_digits 1 (digits n)"
    using is_digit_not_special [of d] by (simp add: parseInt_def)
  then show ?thesis by (simp add: parse_digits_digits)
qed

lemma parseInt_minus_digits: "parseInt (CHR ''-'' # digits n) = Num (- int n)"
proof -
  have "\<not> is_space CHR ''-''" by (simp add: is_space_def)
  then show ?thesis by (simp add: parseInt_def parse_digits_digits)
qed

lemma parseInt_ToString_Num: "parseInt (ToString (Num i)) = Num i"
  by (simp add: parseInt_digits parseInt_minus_digits)

lemma parseInt_ToString_NaN: "parseInt (ToString NaN) = NaN"
  by (simp add: parseInt_def is_space_def parse_digits_def is_digit_def)

lemma parseInt_ToString: "parseInt (ToString n) = n"
  by (cases n) (simp_all only: parseInt_ToString_Num parseInt_ToString_NaN)

lemma ToString_inj: "ToString m = ToString n \<longleftrightarrow> m = n"
  by (metis parseInt_ToString)



declare ToString.simps [simp del]





subsection \<open>Searching a string\<close>






subsection \<open>Objects\<close>


lemma obj_keys_obj_set:
  "obj_keys (obj_set ob k v) = (if k \<in> set (obj_keys ob) then obj_keys ob else obj_keys ob @ [k])"
  by (induction ob) (force simp: obj_keys_def)+

lemma set_obj_keys_obj_set: "set (obj_keys (obj_set ob k v)) = insert k (set (obj_keys ob))"
  by (auto simp: obj_keys_obj_set)

lemma distinct_obj_set: "distinct (obj_keys ob) \<Longrightarrow> distinct (obj_keys (obj_set ob k v))"
  by (simp add: obj_keys_obj_set)


lemma obj_get_Some_mem: "distinct (obj_keys ob) \<Longrightarrow> obj_get ob k = Some v \<longleftrightarrow> (k, v) \<in> set ob"
  by (simp add: obj_get_def obj_keys_def)

lemma set_obj_set_mem:
  "(k', v') \<in> set (obj_set ob k v) \<Longrightarrow> (k', v') = (k, v) \<or> (k', v') \<in> set ob"
  by (induction ob) (auto split: if_splits)

subsection \<open>The overwrite of the synchronisation effect\<close>

lemma obj_set_fresh: "k \<notin> set (obj_keys ob) \<Longrightarrow> obj_set ob k v = ob @ [(k, v)]"
  by (induction ob) (auto simp: obj_keys_def)






lemma number_keyed_obj_set: "number_keyed ob \<Longrightarrow> number_keyed (obj_set ob (ToString n) v)"
  by (auto simp: number_keyed_def distinct_obj_set set_obj_keys_obj_set)

subsection \<open>What each effect can change\<close>

lemma fp_mapI: "s' = s\<lparr>layers := layers s', calls := calls s'\<rparr> \<Longrightarrow> fp_map s s'"
  unfolding fp_map_def by blast

lemma fp_map_refl: "fp_map s s"
  by (rule fp_mapI) simp

lemma fp_map_trans: "fp_map s s' \<Longrightarrow> fp_map s' s'' \<Longrightarrow> fp_map s s''"
  unfolding fp_map_def by (elim exE, simp, blast)

lemma fp_map_fields:
  assumes "fp_map s s'"
  shows "radii s' = radii s" "isSynced s' = isSynced s" "uniformRadius s' = uniformRadius s"
    "showLabels s' = showLabels s" "showHeatmap s' = showHeatmap s"
    "isClusteringEnabled s' = isClusteringEnabled s" "searchTerm s' = searchTerm s"
    "mapRef s' = mapRef s" "layerRefs s' = layerRefs s"
    "markerClusterGroupRef s' = markerClusterGroupRef s" "heatmapLayerRef s' = heatmapLayerRef s"
    "clusterMembers s' = clusterMembers s" "circleRadius s' = circleRadius s"
    "markerIcon s' = markerIcon s" "document s' = document s" "radiiUpdates s' = radiiUpdates s"
  using assms by (auto simp: fp_map_def)

lemma fp_map_addLayer: "fp_map s (map_addLayer x s)"
  by (rule fp_mapI)
    (simp add: map_addLayer_def attach_def on_add_def hasLayer_def split: layer.splits)

lemma fp_map_removeLayer: "fp_map s (map_removeLayer x s)"
  by (rule fp_mapI)
    (simp add: map_removeLayer_def detach_def on_remove_def hasLayer_def split: layer.splits)

lemma fp_map_remove_markers: "fp_map s (remove_markers rs s)"
proof (induction rs arbitrary: s)
  case Nil
  show ?case by (simp add: fp_map_refl)
next
  case (Cons r rs)
  show ?case
    using fp_map_trans [OF fp_map_removeLayer Cons] Cons by simp
qed

lemma fp_map_add_markers: "fp_map s (add_markers rs s)"
proof (induction rs arbitrary: s)
  case Nil
  show ?case by (simp add: fp_map_refl)
next
  case (Cons r rs)
  show ?case
    using fp_map_trans [OF fp_map_addLayer Cons] Cons by simp
qed

lemma fp_map_heatmap_effect: "fp_map s (heatmap_effect s)"
  by (simp add: heatmap_effect_def fp_map_refl fp_map_addLayer fp_map_removeLayer)

lemma fp_map_clustering_effect: "fp_map s (clustering_effect s)"
proof -
  have 1: "fp_map s (map_addLayer MarkerClusterGroup (remove_markers rs s))" for rs
    using fp_map_trans [OF fp_map_remove_markers fp_map_addLayer] .
  have 2: "fp_map s (add_markers rs (map_removeLayer MarkerClusterGroup s))" for rs
    using fp_map_trans [OF fp_map_removeLayer fp_map_add_markers] .
  show ?thesis
    by (simp add: clustering_effect_def Let_def fp_map_refl fp_map_remove_markers
        fp_map_add_markers 1 2)
qed

lemma fp_viewI:
  "s' = s\<lparr>circleRadius := circleRadius s', document := document s', calls := calls s'\<rparr>
   \<Longrightarrow> fp_view s s'"
  unfolding fp_view_def by blast

lemma fp_view_refl: "fp_view s s"
  by (rule fp_viewI) simp

lemma fp_view_trans: "fp_view s s' \<Longrightarrow> fp_view s' s'' \<Longrightarrow> fp_view s s''"
  unfolding fp_view_def by (elim exE, simp, blast)

lemma fp_view_fields:
  assumes "fp_view s s'"
  shows "radii s' = radii s" "isSynced s' = isSynced s" "uniformRadius s' = uniformRadius s"
    "showLabels s' = showLabels s" "showHeatmap s' = showHeatmap s"
    "isClusteringEnabled s' = isClusteringEnabled s" "searchTerm s' = searchTerm s"
    "mapRef s' = mapRef s" "layerRefs s' = layerRefs s"
    "markerClusterGroupRef s' = markerClusterGroupRef s" "heatmapLayerRef s' = heatmapLayerRef s"
    "clusterMembers s' = clusterMembers s" "layers s' = layers s"
    "markerIcon s' = markerIcon s" "radiiUpdates s' = radiiUpdates s"
  using assms by (auto simp: fp_view_def)

lemma fp_view_radii_entry: "fp_view s (radii_entry e s)"
  by (rule fp_viewI)
    (simp add: radii_entry_def circle_setRadius_def Let_def split: option.splits)

lemma fp_view_radii_loop: "fp_view s (radii_loop es s)"
proof (induction es arbitrary: s)
  case Nil
  show ?case by (simp add: fp_view_refl)
next
  case (Cons e es)
  show ?case
    using fp_view_trans [OF fp_view_radii_entry Cons] by simp
qed

lemma fp_view_radii_effect: "fp_view s (radii_effect s)"
  by (simp add: radii_effect_def fp_view_radii_loop)

lemma fp_iconI: "s' = s\<lparr>markerIcon := markerIcon s', calls := calls s'\<rparr> \<Longrightarrow> fp_icon s s'"
  unfolding fp_icon_def by blast

lemma fp_icon_refl: "fp_icon s s"
  by (rule fp_iconI) simp

lemma fp_icon_trans: "fp_icon s s' \<Longrightarrow> fp_icon s' s'' \<Longrightarrow> fp_icon s s''"
  unfolding fp_icon_def by (elim exE, simp, blast)

lemma fp_icon_fields:
  assumes "fp_icon s s'"
  shows "radii s' = radii s" "isSynced s' = isSynced s" "uniformRadius s' = uniformRadius s"
    "showLabels s' = showLabels s" "showHeatmap s' = showHeatmap s"
    "isClusteringEnabled s' = isClusteringEnabled s" "searchTerm s' = searchTerm s"
    "mapRef s' = mapRef s" "layerRefs s' = layerRefs s"
    "markerClusterGroupRef s' = markerClusterGroupRef s" "heatmapLayerRef s' = heatmapLayerRef s"
    "clusterMembers s' = clusterMembers s" "layers s' = layers s"
    "circleRadius s' = circleRadius s" "document s' = document s"
    "radiiUpdates s' = radiiUpdates s"
  using assms by (auto simp: fp_icon_def)

lemma fp_icon_label_step: "fp_icon s (label_step loc s)"
  by (rule fp_iconI) (simp add: label_step_def marker_setIcon_def split: option.splits)

lemma fp_icon_labels_loop: "fp_icon s (labels_loop locs s)"
proof (induction locs arbitrary: s)
  case Nil
  show ?case by (simp add: fp_icon_refl)
next
  case (Cons loc locs)
  show ?case
    using fp_icon_trans [OF fp_icon_label_step Cons] by simp
qed

lemma fp_icon_labels_effect: "fp_icon s (labels_effect LOCATIONS s)"
  by (simp add: labels_effect_def fp_icon_labels_loop)

lemma ToString_Num_neq_NaN: "ToString (Num i) \<noteq> ToString NaN"
  by (simp only: ToString_inj) simp



subsection \<open>The effect on the radii\<close>




subsection \<open>Layers of the map\<close>

lemma layers_map_addLayer:
  "plain y \<Longrightarrow> y \<in> layers (map_addLayer x s) \<longleftrightarrow> y = x \<or> y \<in> layers s"
  by (auto simp: plain_def map_addLayer_def attach_def on_add_def hasLayer_def
      split: layer.splits if_splits)

lemma layers_map_removeLayer:
  "plain y \<Longrightarrow> y \<in> layers (map_removeLayer x s) \<longleftrightarrow> y \<noteq> x \<and> y \<in> layers s"
  by (auto simp: plain_def map_removeLayer_def detach_def on_remove_def hasLayer_def
      split: layer.splits if_splits)



lemma remove_markers_none:
  "\<forall>r \<in> set rs. Marker (marker r) \<notin> layers s \<Longrightarrow> remove_markers rs s = s"
  by (induction rs arbitrary: s) (auto simp: hasLayer_def)


lemma plain_simps [simp]: "plain (Marker i)" "plain MarkerClusterGroup" "plain HeatLayer"
  "plain TileLayer" "\<not> plain (Circle i)"
  by (simp_all add: plain_def)






subsection \<open>The initialisation\<close>

lemma set_obj_set:
  "distinct (obj_keys ob) \<Longrightarrow>
   set (obj_set ob k v) = insert (k, v) {p \<in> set ob. fst p \<noteq> k}"
  by (induction ob) (force simp: obj_keys_def)+

lemma layerRefs_for_obj_set:
  assumes "layerRefs_for A L"
  shows "layerRefs_for (insert j A) (obj_set L (ToString (Num j)) \<lparr>marker = j, circle = j\<rparr>)"
proof -
  let ?f = "\<lambda>i. (ToString (Num i), \<lparr>marker = i, circle = i\<rparr>)"
  have d: "distinct (obj_keys L)" and e: "set L = ?f ` A"
    using assms by (simp_all add: layerRefs_for_def)
  have "{p \<in> ?f ` A. fst p \<noteq> ToString (Num j)} = ?f ` (A - {j})"
    by (auto simp: ToString_inj)
  then have "set (obj_set L (ToString (Num j)) \<lparr>marker = j, circle = j\<rparr>) = ?f ` insert j A"
    using e by (auto simp: set_obj_set [OF d])
  then show ?thesis
    using d by (simp add: layerRefs_for_def distinct_obj_set)
qed

lemma fp_initI:
  "s' = s\<lparr>layerRefs := layerRefs s', clusterMembers := clusterMembers s',
          circleRadius := circleRadius s', markerIcon := markerIcon s', calls := calls s'\<rparr>
   \<Longrightarrow> fp_init s s'"
  unfolding fp_init_def by blast

lemma fp_init_refl: "fp_init s s"
  by (rule fp_initI) simp

lemma fp_init_trans: "fp_init s s' \<Longrightarrow> fp_init s' s'' \<Longrightarrow> fp_init s s''"
  unfolding fp_init_def by (elim exE, simp, blast)

lemma fp_init_fields:
  assumes "fp_init s s'"
  shows "radii s' = radii s" "isSynced s' = isSynced s" "uniformRadius s' = uniformRadius s"
    "showLabels s' = showLabels s" "showHeatmap s' = showHeatmap s"
    "isClusteringEnabled s' = isClusteringEnabled s" "searchTerm s' = searchTerm s"
    "mapRef s' = mapRef s" "markerClusterGroupRef s' = markerClusterGroupRef s"
    "heatmapLayerRef s' = heatmapLayerRef s" "layers s' = layers s"
    "document s' = document s" "radiiUpdates s' = radiiUpdates s"
  using assms by (auto simp: fp_init_def)

lemma fp_init_location: "fp_init s (snd (init_location loc (ir, s)))"
  by (rule fp_initI) (simp add: init_location_def Let_def)

lemma fp_init_loop: "fp_init s (snd (init_loop locs (ir, s)))"
proof (induction locs arbitrary: ir s)
  case Nil
  show ?case by (simp add: fp_init_refl)
next
  case (Cons loc locs)
  obtain ir1 s1 where p: "init_location loc (ir, s) = (ir1, s1)" by (cases "init_location loc (ir, s)")
  have "fp_init s s1" using fp_init_location [of s loc ir] p by simp
  then show ?case using fp_init_trans [OF _ Cons [of s1 ir1]] p by simp
qed

lemma init_loop_props:
  assumes "layerRefs_for A (layerRefs s)" and "number_keyed ir"
  shows "layerRefs_for (A \<union> loc_id ` set locs) (layerRefs (snd (init_loop locs (ir, s))))
    \<and> number_keyed (fst (init_loop locs (ir, s)))
    \<and> set (obj_keys (fst (init_loop locs (ir, s)))) =
        set (obj_keys ir) \<union> id_keys (loc_id ` set locs)
    \<and> (\<forall>p \<in> set (fst (init_loop locs (ir, s))). p \<in> set ir \<or> snd p = 10)
    \<and> clusterMembers (snd (init_loop locs (ir, s))) = clusterMembers s \<union> loc_id ` set locs
    \<and> (\<forall>i. circleRadius (snd (init_loop locs (ir, s))) i =
          (if i \<in> loc_id ` set locs then Some 10000 else circleRadius s i))"
  using assms
proof (induction locs arbitrary: ir s A)
  case Nil
  show ?case using Nil by (simp add: id_keys_def)
next
  case (Cons loc locs)
  let ?j = "loc_id loc"
  let ?ir1 = "obj_set ir (ToString (Num ?j)) 10"
  obtain s1 where p: "init_location loc (ir, s) = (?ir1, s1)"
    by (simp add: init_location_def Let_def)
  have s1: "layerRefs s1 = obj_set (layerRefs s) (ToString (Num ?j)) \<lparr>marker = ?j, circle = ?j\<rparr>"
    "clusterMembers s1 = insert ?j (clusterMembers s)"
    "circleRadius s1 = (circleRadius s)(?j \<mapsto> 10000)"
    using p by (auto simp: init_location_def Let_def)
  have lr1: "layerRefs_for (insert ?j A) (layerRefs s1)"
    using Cons.prems(1) by (simp add: s1 layerRefs_for_obj_set)
  have nk1: "number_keyed ?ir1" using Cons.prems(2) by (rule number_keyed_obj_set)
  have mem: "\<forall>q \<in> set ?ir1. q \<in> set ir \<or> snd q = 10"
    using set_obj_set_mem [of _ _ ir "ToString (Num ?j)" 10] by fastforce
  show ?case
    using Cons.IH [OF lr1 nk1] mem
    by (auto simp: p s1 set_obj_keys_obj_set id_keys_def)
qed

lemma init_loop_distinct:
  assumes "distinct (map loc_id locs)" and "id_keys (loc_id ` set locs) \<inter> set (obj_keys ir) = {}"
  shows "fst (init_loop locs (ir, s)) = ir @ map (\<lambda>loc. (ToString (Num (loc_id loc)), 10)) locs"
  using assms
proof (induction locs arbitrary: ir s)
  case Nil
  show ?case by simp
next
  case (Cons loc locs)
  let ?k = "ToString (Num (loc_id loc))"
  have fresh: "?k \<notin> set (obj_keys ir)" using Cons.prems(2) by (auto simp: id_keys_def)
  obtain s1 where p: "init_location loc (ir, s) = (ir @ [(?k, 10)], s1)"
    by (simp add: init_location_def Let_def obj_set_fresh [OF fresh])
  have "id_keys (loc_id ` set locs) \<inter> set (obj_keys (ir @ [(?k, 10)])) = {}"
    using Cons.prems by (auto simp: id_keys_def obj_keys_def ToString_inj)
  with Cons show ?case by (simp add: p)
qed

subsection \<open>Committing new radii\<close>

lemma setRadii_fields:
  "radii (setRadii m s) = m" "radiiUpdates (setRadii m s) = Suc (radiiUpdates s)"
  "isSynced (setRadii m s) = isSynced s" "uniformRadius (setRadii m s) = uniformRadius s"
  "showLabels (setRadii m s) = showLabels s" "showHeatmap (setRadii m s) = showHeatmap s"
  "isClusteringEnabled (setRadii m s) = isClusteringEnabled s"
  "searchTerm (setRadii m s) = searchTerm s" "mapRef (setRadii m s) = mapRef s"
  "layerRefs (setRadii m s) = layerRefs s"
  "markerClusterGroupRef (setRadii m s) = markerClusterGroupRef s"
  "heatmapLayerRef (setRadii m s) = heatmapLayerRef s"
  "clusterMembers (setRadii m s) = clusterMembers s" "layers (setRadii m s) = layers s"
  "markerIcon (setRadii m s) = markerIcon s"
  using fp_view_fields [OF fp_view_radii_effect
      [of "s\<lparr>radii := m, radiiUpdates := Suc (radiiUpdates s)\<rparr>"]]
  by (simp_all add: setRadii_def)





lemma number_keyed_Nil: "number_keyed []"
  by (simp add: number_keyed_def obj_keys_def)

lemma layerRefs_for_Nil: "layerRefs_for {} []"
  by (simp add: layerRefs_for_def obj_keys_def)

subsection \<open>The mount\<close>

lemma mount_eq:
  "\<exists>s0 s. mount LOCATIONS = setRadii (fst (init_loop LOCATIONS ([], s0))) s
     \<and> layerRefs s0 = [] \<and> radiiUpdates s = 0
     \<and> refs_ok LOCATIONS s \<and> mode_ok LOCATIONS s \<and> doc_ok LOCATIONS s"
proof -
  define s0 where
    "s0 = (attach TileLayer (initial\<lparr>mapRef := True\<rparr>))
            \<lparr>heatmapLayerRef := True, markerClusterGroupRef := True\<rparr>"
  define p where "p = init_loop LOCATIONS ([], s0)"
  define s6 where
    "s6 = (map_addLayer MarkerClusterGroup (snd p))
            \<lparr>calls := calls (map_addLayer MarkerClusterGroup (snd p))
                        @ [AddControl Legend, AddControl FullscreenControl]\<rparr>"
  have ie: "init_effect LOCATIONS initial = (Some (fst p), s6)"
    by (simp add: init_effect_def Let_def initial_def s0_def p_def s6_def)
  have s0: "layerRefs s0 = []" "clusterMembers s0 = {}" "layers s0 = {TileLayer}"
    "mapRef s0" "heatmapLayerRef s0" "markerClusterGroupRef s0" "radii s0 = []"
    "\<not> isSynced s0" "\<not> showHeatmap s0" "isClusteringEnabled s0" "document s0 = Map.empty"
    "radiiUpdates s0 = 0"
    by (simp_all add: s0_def initial_def attach_def)
  have lp: "layerRefs_for (catalog_ids LOCATIONS) (layerRefs (snd p))"
    "clusterMembers (snd p) = catalog_ids LOCATIONS"
    using init_loop_props [of "{}" s0 "[]" LOCATIONS] s0
    by (simp_all add: p_def layerRefs_for_Nil number_keyed_Nil catalog_ids_def)
  have fp: "layers (snd p) = {TileLayer}" "mapRef (snd p)" "heatmapLayerRef (snd p)"
    "markerClusterGroupRef (snd p)" "radii (snd p) = []" "\<not> isSynced (snd p)"
    "\<not> showHeatmap (snd p)" "isClusteringEnabled (snd p)" "document (snd p) = Map.empty"
    "radiiUpdates (snd p) = 0"
    using fp_init_fields [OF fp_init_loop [of s0 LOCATIONS "[]"]] s0 by (simp_all add: p_def)
  let ?g = "map_addLayer MarkerClusterGroup (snd p)"
  have g: "layerRefs ?g = layerRefs (snd p)" "clusterMembers ?g = clusterMembers (snd p)"
    "mapRef ?g" "heatmapLayerRef ?g" "markerClusterGroupRef ?g" "radii ?g = []"
    "\<not> isSynced ?g" "\<not> showHeatmap ?g" "isClusteringEnabled ?g" "document ?g = Map.empty"
    "radiiUpdates ?g = 0"
    using fp_map_fields [OF fp_map_addLayer [of "snd p" MarkerClusterGroup]] fp by simp_all
  have gl: "layers ?g = {TileLayer, MarkerClusterGroup}"
    using fp(1) by (auto simp: map_addLayer_def hasLayer_def attach_def)
  have s6: "layerRefs_for (catalog_ids LOCATIONS) (layerRefs s6)"
    "clusterMembers s6 = catalog_ids LOCATIONS" "layers s6 = {TileLayer, MarkerClusterGroup}"
    "mapRef s6" "heatmapLayerRef s6" "markerClusterGroupRef s6" "radii s6 = []"
    "\<not> isSynced s6" "\<not> showHeatmap s6" "isClusteringEnabled s6" "document s6 = Map.empty"
    "radiiUpdates s6 = 0"
    using g gl lp by (simp_all add: s6_def)
  have e1: "radii_effect s6 = s6" by (simp add: radii_effect_def s6)
  have e2: "heatmap_effect s6 = s6" by (simp add: heatmap_effect_def s6 hasLayer_def)
  have e3: "sync_effect s6 = s6" by (simp add: sync_effect_def s6)
  let ?s4 = "labels_effect LOCATIONS s6"
  have s4: "layerRefs_for (catalog_ids LOCATIONS) (layerRefs ?s4)"
    "clusterMembers ?s4 = catalog_ids LOCATIONS" "layers ?s4 = {TileLayer, MarkerClusterGroup}"
    "mapRef ?s4" "heatmapLayerRef ?s4" "markerClusterGroupRef ?s4" "radii ?s4 = []"
    "isClusteringEnabled ?s4" "document ?s4 = Map.empty" "radiiUpdates ?s4 = 0"
    using fp_icon_fields [OF fp_icon_labels_effect [of s6 LOCATIONS]] s6 by simp_all
  have "remove_markers (obj_values (layerRefs ?s4)) ?s4 = ?s4"
    by (rule remove_markers_none) (simp add: s4)
  then have e5: "clustering_effect ?s4 = ?s4"
    by (simp add: clustering_effect_def Let_def s4 hasLayer_def)
  have m: "mount LOCATIONS = setRadii (fst p) ?s4"
    by (simp add: mount_def Let_def ie e1 e2 e3 e5)
  have "refs_ok LOCATIONS ?s4" by (simp add: refs_ok_def s4)
  moreover have "mode_ok LOCATIONS ?s4"
    by (simp add: mode_ok_def clustered_mode_def s4)
  moreover have "doc_ok LOCATIONS ?s4" by (simp add: doc_ok_def s4)
  ultimately show ?thesis using m s0(1) s4(10) unfolding p_def by blast
qed


subsection \<open>The invariant of a session\<close>






















subsection \<open>The radii after the mount\<close>

lemma mount_radii:
  "(\<forall>loc \<in> set LOCATIONS. obj_get (radii (mount LOCATIONS)) (ToString (Num (loc_id loc))) = Some 10)
   \<and> set (obj_keys (radii (mount LOCATIONS))) = id_keys (catalog_ids LOCATIONS)
   \<and> distinct (obj_keys (radii (mount LOCATIONS)))
   \<and> (\<forall>e \<in> set (radii (mount LOCATIONS)). snd e = 10)
   \<and> (distinct (map loc_id LOCATIONS) \<longrightarrow>
        radii (mount LOCATIONS) = map (\<lambda>loc. (ToString (Num (loc_id loc)), 10)) LOCATIONS)"
proof -
  obtain s0 s where m: "mount LOCATIONS = setRadii (fst (init_loop LOCATIONS ([], s0))) s"
    and s0: "layerRefs s0 = []"
    using mount_eq by blast
  let ?ir = "fst (init_loop LOCATIONS ([], s0))"
  have r: "radii (mount LOCATIONS) = ?ir" by (simp add: m setRadii_fields)
  have "layerRefs_for {} (layerRefs s0)" by (simp add: s0 layerRefs_for_Nil)
  from init_loop_props [OF this number_keyed_Nil, of LOCATIONS]
  have nk: "number_keyed ?ir"
    and keys: "set (obj_keys ?ir) = id_keys (catalog_ids LOCATIONS)"
    and vals: "\<forall>e \<in> set ?ir. snd e = 10"
    by (simp_all add: catalog_ids_def obj_keys_def)
  have d: "distinct (obj_keys ?ir)" using nk by (simp add: number_keyed_def)
  have get: "obj_get ?ir (ToString (Num (loc_id loc))) = Some 10" if "loc \<in> set LOCATIONS" for loc
  proof -
    have "ToString (Num (loc_id loc)) \<in> set (obj_keys ?ir)"
      using that by (auto simp: keys id_keys_def catalog_ids_def)
    then obtain v where "(ToString (Num (loc_id loc)), v) \<in> set ?ir"
      by (auto simp: obj_keys_def)
    then show ?thesis using vals d by (auto simp: obj_get_Some_mem)
  qed
  have ex: "?ir = map (\<lambda>loc. (ToString (Num (loc_id loc)), 10)) LOCATIONS"
    if "distinct (map loc_id LOCATIONS)"
    using init_loop_distinct [OF that, of "[]" s0] by (simp add: obj_keys_def)
  show ?thesis unfolding r using get keys d vals ex by blast
qed

subsection \<open>The keys of the radii during a session\<close>



lemma radii_unchanged:
  "radii (setSearchTerm q s) = radii s"
  "radii (setShowLabels LOCATIONS b s) = radii s"
  "radii (setShowHeatmap b s) = radii s"
  "radii (setIsClusteringEnabled b s) = radii s"
  "radii (handleLocationSelect loc s) = radii s"
  "radii (marker_openPopup i s) = radii s"
  "radii (closePopup i s) = radii s"
  using fp_icon_fields(1) [OF fp_icon_labels_effect [of "s\<lparr>showLabels := b\<rparr>" LOCATIONS]]
    fp_map_fields(1) [OF fp_map_heatmap_effect [of "s\<lparr>showHeatmap := b\<rparr>"]]
    fp_map_fields(1) [OF fp_map_clustering_effect [of "s\<lparr>isClusteringEnabled := b\<rparr>"]]
  by (auto simp: setSearchTerm_def setShowLabels_def setShowHeatmap_def
      setIsClusteringEnabled_def handleLocationSelect_def marker_openPopup_def closePopup_def
      split: option.splits)






subsection \<open>A call of \<open>updateRadius\<close>\<close>


lemma updateRadius_fields:
  "layers (updateRadius i v s) = layers s" "markerIcon (updateRadius i v s) = markerIcon s"
  "flags (updateRadius i v s) = flags s" "isSynced (updateRadius i v s) = isSynced s"
  "uniformRadius (updateRadius i v s) = uniformRadius s"
  "searchTerm (updateRadius i v s) = searchTerm s"
  "radiiUpdates (updateRadius i v s) = Suc (radiiUpdates s)"
  by (simp_all add: updateRadius_def setRadii_fields flags_def)




subsection \<open>The clustering effect, call by call\<close>

lemma apply_ops_simps [simp]:
  "apply_ops [] s = s" "apply_ops (op # ops) s = apply_ops ops (apply_op op s)"
  "apply_ops (ops @ ops') s = apply_ops ops' (apply_ops ops s)"
  by (simp_all add: apply_ops_def)



lemma fp_map_apply_op: "fp_map s (apply_op op s)"
  by (cases op) (simp_all add: fp_map_refl fp_map_addLayer fp_map_removeLayer)

lemma fp_map_apply_ops: "fp_map s (apply_ops ops s)"
proof (induction ops arbitrary: s)
  case Nil
  show ?case by (simp add: fp_map_refl)
next
  case (Cons op ops)
  show ?case using fp_map_trans [OF fp_map_apply_op Cons] by simp
qed


lemma layers_apply_op:
  "plain y \<Longrightarrow> y \<in> layers (apply_op op s) \<longleftrightarrow>
     (case op of EnsureOn x \<Rightarrow> y = x \<or> y \<in> layers s | EnsureOff x \<Rightarrow> y \<noteq> x \<and> y \<in> layers s)"
  by (cases op) (auto simp: layers_map_addLayer layers_map_removeLayer hasLayer_def)






section \<open>The claims\<close>

subsection \<open>Synchronised radii\<close>



subsection \<open>The keys of the radii\<close>




subsection \<open>A radius for an unknown id\<close>




subsection \<open>The search filter\<close>



subsection \<open>Redrawing after a change of radius\<close>



subsection \<open>One rendering mode for the markers\<close>



subsection \<open>Toggles set to the value they have\<close>



subsection \<open>Flags and radii do not touch each other\<close>

text \<open>
  C8. Setting the labels, heatmap or clustering flag leaves \<open>radii\<close> as it is; and every
  operation that changes \<open>radii\<close> (a call of \<open>window.updateRadius\<close>, the slider of a popup,
  the synchronisation after \<open>setIsSynced\<close> or \<open>setUniformRadius\<close>) leaves the three flags
  as they are.
\<close>

theorem flags_and_radii_independent:
  "radii (setShowLabels LOCATIONS b s) = radii s
   \<and> radii (setShowHeatmap b s) = radii s
   \<and> radii (setIsClusteringEnabled b s) = radii s
   \<and> flags (updateRadius i v s) = flags s
   \<and> flags (setIsSynced b s) = flags s
   \<and> flags (setUniformRadius v s) = flags s
   \<and> flags (popup_oninput i v s) = flags s"
proof -
  have 1: "flags (setRadii m t) = flags t" for m t
    by (simp add: flags_def setRadii_fields)
  have 2: "flags (sync_effect t) = flags t" for t
    by (simp add: sync_effect_def 1)
  have 3: "flags (setIsSynced b s) = flags s" "flags (setUniformRadius v s) = flags s"
    by (simp_all add: setIsSynced_def setUniformRadius_def 2) (simp_all add: flags_def)
  have 4: "flags (popup_oninput i v s) = flags s"
    by (simp add: popup_oninput_def updateRadius_fields) (simp add: flags_def)
  show ?thesis using 3 4 by (simp add: radii_unchanged updateRadius_fields)
qed

theorem flags_and_radii_independent_witness:
  "radii (setIsClusteringEnabled False (mount demo)) = [(''1'', 10), (''2'', 10), (''3'', 10)]
   \<and> setIsClusteringEnabled False (mount demo) \<noteq> mount demo
   \<and> flags (updateRadius 1 25 (mount demo)) = (True, False, True)
   \<and> radii (updateRadius 1 25 (mount demo)) \<noteq> radii (mount demo)"
proof -
  have h: "radii (mount demo) = [(''1'', 10), (''2'', 10), (''3'', 10)]"
    "flags (mount demo) = (True, False, True)"
    "isClusteringEnabled (setIsClusteringEnabled False (mount demo))
       \<noteq> isClusteringEnabled (mount demo)"
    "radii (updateRadius 1 25 (mount demo)) \<noteq> radii (mount demo)"
    by code_simp+
  have "setIsClusteringEnabled False (mount demo) \<noteq> mount demo"
  proof
    assume "setIsClusteringEnabled False (mount demo) = mount demo"
    then have "isClusteringEnabled (setIsClusteringEnabled False (mount demo))
        = isClusteringEnabled (mount demo)"
      by simp
    with h(3) show False by simp
  qed
  then show ?thesis
    using flags_and_radii_independent [of demo False "mount demo" 1 25]
      h
    by simp
qed

subsection \<open>The radii after the mount\<close>

text \<open>
  C9. When the component has mounted, \<open>radii\<close> holds 10 for every location of the
  catalog; its keys are the ids of the catalog, each once, and every entry is 10. With
  unique ids that is one entry per location.
\<close>

theorem mount_initial_radii:
  "(\<forall>loc \<in> set LOCATIONS. obj_get (radii (mount LOCATIONS)) (ToString (Num (loc_id loc))) = Some 10)
   \<and> set (obj_keys (radii (mount LOCATIONS))) = id_keys (catalog_ids LOCATIONS)
   \<and> distinct (obj_keys (radii (mount LOCATIONS)))
   \<and> (\<forall>e \<in> set (radii (mount LOCATIONS)). snd e = 10)
   \<and> (distinct (map loc_id LOCATIONS) \<longrightarrow> length (radii (mount LOCATIONS)) = length LOCATIONS)"
proof -
  have "length (radii (mount LOCATIONS)) = length LOCATIONS" if "distinct (map loc_id LOCATIONS)"
  proof -
    have "radii (mount LOCATIONS) = map (\<lambda>loc. (ToString (Num (loc_id loc)), 10)) LOCATIONS"
      using mount_radii [of LOCATIONS] that by blast
    then show ?thesis by simp
  qed
  then show ?thesis using mount_radii [of LOCATIONS] by blast
qed

theorem mount_initial_radii_witness:
  "distinct (map loc_id demo) \<and> London \<in> set demo
   \<and> obj_get (radii (mount demo)) ''1'' = Some 10
   \<and> set (obj_keys (radii (mount demo))) = {''1'', ''2'', ''3''}
   \<and> length (radii (mount demo)) = 3"
proof -
  have d: "distinct (map loc_id demo)" "London \<in> set demo" "length demo = 3"
    by (simp_all add: demo_def London_def Leeds_def Londonderry_def)
  have e: "ToString (Num (loc_id London)) = ''1''"
    "id_keys (catalog_ids demo) = {''1'', ''2'', ''3''}"
    by code_simp+
  have "obj_get (radii (mount demo)) (ToString (Num (loc_id London))) = Some 10"
    using mount_initial_radii [of demo] d(2) by blast
  moreover have "set (obj_keys (radii (mount demo))) = id_keys (catalog_ids demo)"
    using mount_initial_radii [of demo] by blast
  moreover have "length (radii (mount demo)) = length demo"
    using mount_initial_radii [of demo] d(1) by blast
  ultimately show ?thesis using d e by simp
qed

subsection \<open>The overwrite keeps the keys\<close>



end
